theory Spec2Isabelle
  imports
    Complex_Main
    "HOL-Library.Char_ord"
    "HOL-Library.List_Lexorder"
    "HOL-Library.Finite_Map"
    "HOL-Library.AList"
    "HOL-Library.Signed_Division"
begin

section \<open>Values, strings and errors\<close>

text \<open>
  Strings are sequences of code units; the model covers the code units
  U+0000 .. U+00FF, one \<^typ>\<open>char\<close> each.  Counts and millisecond timestamps are
  integers; the request ceiling of the rate limiter is a rational number, since the source
  accepts a ceiling that is not whole.  The clock reading \<open>Date.now()\<close> of each call is
  an explicit argument \<open>now\<close>.
\<close>

text \<open>The error classes of \<open>types.ts\<close>, each carrying its message, and the built-in \<open>Error\<close>.\<close>

datatype error =
    RateLimitError string
  | NotFoundError string
  | TimeoutError string
  | ValidationError string
  | Error string

text \<open>
  \<open>Number.prototype.toString\<close> on an integer.  Up to \<open>Number.MAX_SAFE_INTEGER\<close> in
  absolute value the result is the decimal digits, with a leading minus sign.  Beyond it
  the built-in prints the shortest digits that identify the number, whose last digit the
  language leaves to the implementation, and an exponent form from \<open>1e21\<close>; the model
  leaves that result unspecified.
\<close>

definition MAX_SAFE_INTEGER :: int where
  "MAX_SAFE_INTEGER = 9007199254740991"

definition digit_char :: "nat \<Rightarrow> char" where
  "digit_char d = char_of (48 + d)"

fun nat_toString :: "nat \<Rightarrow> string" where
  "nat_toString n =
     (if n < 10 then [digit_char n] else nat_toString (n div 10) @ [digit_char (n mod 10)])"

declare nat_toString.simps [simp del]

definition toString :: "int \<Rightarrow> string" where
  "toString k =
     (if \<bar>k\<bar> \<le> MAX_SAFE_INTEGER
      then (if k < 0 then CHR ''-'' # nat_toString (nat (- k)) else nat_toString (nat k))
      else undefined)"

text \<open>\<open>String.prototype.padStart(n, c)\<close> with a one-character filler.\<close>

definition padStart :: "string \<Rightarrow> nat \<Rightarrow> char \<Rightarrow> string" where
  "padStart s n c = replicate (n - length s) c @ s"

text \<open>\<open>Array.prototype.join\<close> on an array of strings.\<close>

fun join :: "string \<Rightarrow> string list \<Rightarrow> string" where
  "join sep [] = []"
| "join sep [x] = x"
| "join sep (x # y # ys) = x @ sep @ join sep (y # ys)"

text \<open>
  \<open>String.prototype.trim\<close>: the white space and line terminators of the language among
  the modelled code units are TAB, LF, VT, FF, CR, SPACE and NBSP.
\<close>

definition is_whitespace :: "char \<Rightarrow> bool" where
  "is_whitespace c = (of_char c \<in> {9, 10, 11, 12, 13, 32, 160 :: nat})"

definition trim :: "string \<Rightarrow> string" where
  "trim s = rev (dropWhile is_whitespace (rev (dropWhile is_whitespace s)))"

text \<open>
  \<open>String.prototype.toLowerCase\<close>: among the modelled code units, A-Z and the
  capital letters U+00C0 .. U+00DE (without the multiplication sign U+00D7) move up by 32.
\<close>

definition lower_char :: "char \<Rightarrow> char" where
  "lower_char c =
     (let n = of_char c :: nat
      in if (65 \<le> n \<and> n \<le> 90) \<or> (192 \<le> n \<and> n \<le> 222 \<and> n \<noteq> 215)
         then char_of (n + 32) else c)"

definition toLowerCase :: "string \<Rightarrow> string" where
  "toLowerCase s = map lower_char s"

section \<open>Rate limiter (\<open>rateLimiter.ts\<close>)\<close>

record RateLimitState =
  requests :: int
  windowStart :: int
  isLimited :: bool

record RateLimiter =
  state :: RateLimitState
  maxRequests :: rat
  windowMs :: int

text \<open>The constructor; \<open>now\<close> is the clock reading of the field initialiser.\<close>

definition new_RateLimiter :: "int \<Rightarrow> rat \<Rightarrow> int \<Rightarrow> RateLimiter" where
  "new_RateLimiter now maxR winMs =
     \<lparr>state = \<lparr>requests = 0, windowStart = now, isLimited = False\<rparr>,
      maxRequests = maxR, windowMs = winMs\<rparr>"

text \<open>\<open>Math.ceil(w / 1000)\<close> on an integer \<open>w\<close>.\<close>

definition ceil_div_1000 :: "int \<Rightarrow> int" where
  "ceil_div_1000 w = - ((- w) div 1000)"

text \<open>
  \<open>checkLimit\<close>: the result is the thrown error or the normal return, together with the
  limiter as the call leaves it (the assignments before the \<open>throw\<close> stay).
\<close>

definition checkLimit :: "int \<Rightarrow> RateLimiter \<Rightarrow> (error + unit) \<times> RateLimiter" where
  "checkLimit now rl =
     (let timeSinceWindowStart = now - windowStart (state rl);
          st1 = (if timeSinceWindowStart \<ge> windowMs rl
                 then \<lparr>requests = 0, windowStart = now, isLimited = False\<rparr>
                 else state rl)
      in if of_int (requests st1) \<ge> maxRequests rl
         then (let st2 = st1\<lparr>isLimited := True\<rparr>;
                   resetTime = windowStart st2 + windowMs rl;
                   waitTime = resetTime - now
               in (Inl (RateLimitError
                      (''Rate limit exceeded. Try again in '' @ toString (ceil_div_1000 waitTime)
                         @ '' seconds.'')),
                   rl\<lparr>state := st2\<rparr>))
         else (Inr (), rl\<lparr>state := st1\<lparr>requests := requests st1 + 1\<rparr>\<rparr>))"

record RateLimitStatus =
  status_requests :: int
  status_maxRequests :: rat
  status_resetTime :: int
  status_isLimited :: bool

definition getStatus :: "RateLimiter \<Rightarrow> RateLimitStatus" where
  "getStatus rl =
     (let resetTime = windowStart (state rl) + windowMs rl
      in \<lparr>status_requests = requests (state rl),
          status_maxRequests = maxRequests rl,
          status_resetTime = resetTime,
          status_isLimited = isLimited (state rl)\<rparr>)"

definition reset :: "int \<Rightarrow> RateLimiter \<Rightarrow> RateLimiter" where
  "reset now rl = rl\<lparr>state := \<lparr>requests = 0, windowStart = now, isLimited = False\<rparr>\<rparr>"

text \<open>A sequence of calls on one limiter, each with its clock reading.\<close>

datatype limiter_call = CheckLimit int | GetStatus | Reset int

fun limiter_step :: "RateLimiter \<Rightarrow> limiter_call \<Rightarrow> RateLimiter" where
  "limiter_step rl (CheckLimit now) = snd (checkLimit now rl)"
| "limiter_step rl GetStatus = rl"
| "limiter_step rl (Reset now) = reset now rl"

definition limiter_run :: "RateLimiter \<Rightarrow> limiter_call list \<Rightarrow> RateLimiter" where
  "limiter_run rl calls = foldl limiter_step rl calls"

section \<open>Runtime values and objects\<close>

text \<open>
  The values a property of a plain object holds at run time.  \<open>JObject\<close> stands for a
  plain object (always truthy, printed as \<open>[object Object]\<close> by a template literal).
\<close>

datatype jsval = JUndefined | JNull | JBool bool | JNum int | JStr string | JObject

text \<open>The truthiness test of \<open>if (v)\<close>, \<open>!v\<close> and \<open>v && ...\<close>.\<close>

fun truthy :: "jsval \<Rightarrow> bool" where
  "truthy JUndefined = False"
| "truthy JNull = False"
| "truthy (JBool b) = b"
| "truthy (JNum n) = (n \<noteq> 0)"
| "truthy (JStr s) = (s \<noteq> [])"
| "truthy JObject = True"

text \<open>The string a template literal \<open>`${v}`\<close> inserts.\<close>

fun String :: "jsval \<Rightarrow> string" where
  "String JUndefined = ''undefined''"
| "String JNull = ''null''"
| "String (JBool b) = (if b then ''true'' else ''false'')"
| "String (JNum n) = toString n"
| "String (JStr s) = s"
| "String JObject = ''[object Object]''"

text \<open>
  A plain object: its own properties in insertion order, each key once.  Reading a
  property that is not there gives \<open>undefined\<close>.
\<close>

type_synonym js_object = "(string \<times> jsval) list"

definition Object_keys :: "js_object \<Rightarrow> string list" where
  "Object_keys obj = map fst obj"

definition get_prop :: "js_object \<Rightarrow> string \<Rightarrow> jsval" where
  "get_prop obj key = (case map_of obj key of None \<Rightarrow> JUndefined | Some v \<Rightarrow> v)"

text \<open>
  Object spread \<open>{...a, ...b}\<close>: the properties of \<open>b\<close> are assigned in order onto a copy
  of \<open>a\<close>; an existing key keeps its place and takes the new value.
\<close>

definition spread :: "js_object \<Rightarrow> js_object \<Rightarrow> js_object" where
  "spread a b = fold (\<lambda>(k, v) acc. AList.update k v acc) b a"

section \<open>Cache (\<open>cache.ts\<close>)\<close>

record 'v CacheEntry =
  data :: 'v
  timestamp :: int
  ttl :: int

record 'v Cache =
  cache :: "(string, 'v CacheEntry) fmap"
  defaultTTL :: int

definition new_Cache :: "int \<Rightarrow> 'v Cache" where
  "new_Cache dflt = \<lparr>cache = fmempty, defaultTTL = dflt\<rparr>"

text \<open>\<open>get\<close> returns the value or \<open>null\<close> (\<open>None\<close>), and the cache as the lookup leaves it.\<close>

definition get :: "int \<Rightarrow> string \<Rightarrow> 'v Cache \<Rightarrow> 'v option \<times> 'v Cache" where
  "get now key c =
     (case fmlookup (cache c) key of
        None \<Rightarrow> (None, c)
      | Some entry \<Rightarrow>
          if now - timestamp entry > ttl entry
          then (None, c\<lparr>cache := fmdrop key (cache c)\<rparr>)
          else (Some (data entry), c))"

text \<open>\<open>set\<close>; the optional argument \<open>ttl\<close> is \<open>None\<close> when it is left out.\<close>

definition set_c :: "int \<Rightarrow> string \<Rightarrow> 'v \<Rightarrow> int option \<Rightarrow> 'v Cache \<Rightarrow> 'v Cache" where
  "set_c now key val ttl_arg c =
     (let entry = \<lparr>data = val, timestamp = now,
                   ttl = (case ttl_arg of None \<Rightarrow> defaultTTL c | Some t \<Rightarrow> t)\<rparr>
      in c\<lparr>cache := fmupd key entry (cache c)\<rparr>)"

definition delete :: "string \<Rightarrow> 'v Cache \<Rightarrow> bool \<times> 'v Cache" where
  "delete key c = (key |\<in>| fmdom (cache c), c\<lparr>cache := fmdrop key (cache c)\<rparr>)"

definition clear :: "'v Cache \<Rightarrow> 'v Cache" where
  "clear c = c\<lparr>cache := fmempty\<rparr>"

definition size_c :: "'v Cache \<Rightarrow> nat" where
  "size_c c = fcard (fmdom (cache c))"

text \<open>\<open>clean\<close> returns the number of entries it deletes, and the cache without them.\<close>

definition clean :: "int \<Rightarrow> 'v Cache \<Rightarrow> nat \<times> 'v Cache" where
  "clean now c =
     (fcard (fmdom (fmfilter
        (\<lambda>key. case fmlookup (cache c) key of
                  None \<Rightarrow> False
                | Some entry \<Rightarrow> now - timestamp entry > ttl entry) (cache c))),
      c\<lparr>cache := fmfilter
        (\<lambda>key. case fmlookup (cache c) key of
                  None \<Rightarrow> False
                | Some entry \<Rightarrow> \<not> (now - timestamp entry > ttl entry)) (cache c)\<rparr>)"

text \<open>
  \<open>generateKey\<close>.  The default \<open>sort()\<close> orders strings by their code units, which is the
  lexicographic order of \<^typ>\<open>string\<close>.
\<close>

definition generateKey :: "string \<Rightarrow> js_object \<Rightarrow> string" where
  "generateKey prefix query =
     (let sortedKeys = sort (Object_keys query);
          keyParts = map (\<lambda>key. key @ '':'' @ String (get_prop query key)) sortedKeys
      in prefix @ '':'' @ join ''|'' keyParts)"

section \<open>Formatting and scoring (\<open>utils.ts\<close>)\<close>

text \<open>
  A lyrics line.  \<open>startTime\<close> is \<open>None\<close> when the object has no such property (an
  \<open>UnsyncedLyricsLine\<close>), which is what \<open>'startTime' in line\<close> tests.
\<close>

record LyricsLine =
  "text" :: string
  startTime :: "int option"

datatype LyricsFormat = Plain | Lrc | Json

record TrackMetadata =
  track_id :: int
  name :: string
  trackName :: string
  artistName :: string
  albumName :: string
  duration :: int
  instrumental :: bool
  plainLyrics :: "string option"
  syncedLyrics :: "string option"

record FormattedLyrics =
  content :: string
  format :: LyricsFormat
  metadata :: "TrackMetadata option"

definition isSyncedLyrics :: "LyricsLine list \<Rightarrow> bool" where
  "isSyncedLyrics lyrics = (length lyrics > 0 \<and> startTime (lyrics ! 0) \<noteq> None)"

text \<open>
  One line of \<open>formatToLRC\<close>.  \<open>%\<close> is the remainder with the sign of the dividend
  (\<open>smod\<close>), \<open>Math.floor\<close> of an integer quotient is \<open>div\<close>.  On a line without
  \<open>startTime\<close> every field is \<open>NaN\<close>, which \<open>padStart\<close> leaves as it is.
\<close>

definition lrc_line :: "LyricsLine \<Rightarrow> string" where
  "lrc_line line =
     (case startTime line of
        None \<Rightarrow> ''[NaN:NaN.NaN]'' @ text line
      | Some t \<Rightarrow>
          (let minutes = t div 60000;
               seconds = (t smod 60000) div 1000;
               centiseconds = (t smod 1000) div 10;
               timestamp = ''['' @ padStart (toString minutes) 2 CHR ''0'' @ '':''
                             @ padStart (toString seconds) 2 CHR ''0'' @ ''.''
                             @ padStart (toString centiseconds) 2 CHR ''0'' @ '']''
           in timestamp @ text line))"

definition formatToLRC :: "LyricsLine list \<Rightarrow> string" where
  "formatToLRC lyrics = join [CHR 0x0A] (map lrc_line lyrics)"

text \<open>
  \<open>formatLyrics\<close>.  The built-in \<open>JSON.stringify(lyrics, null, 2)\<close> is the parameter
  \<open>stringify\<close>; the optional argument \<open>format\<close> is \<open>None\<close> when it is left out.
\<close>

definition formatLyrics ::
  "(LyricsLine list \<Rightarrow> string) \<Rightarrow> LyricsLine list \<Rightarrow> LyricsFormat option
     \<Rightarrow> TrackMetadata option \<Rightarrow> error + FormattedLyrics" where
  "formatLyrics stringify lyrics fmt md =
     (case (case fmt of None \<Rightarrow> Json | Some f \<Rightarrow> f) of
        Plain \<Rightarrow>
          Inr \<lparr>content = join [CHR 0x0A] (map text lyrics), format = Plain, metadata = md\<rparr>
      | Lrc \<Rightarrow>
          if \<not> isSyncedLyrics lyrics
          then Inl (ValidationError ''LRC format requires synced lyrics'')
          else Inr \<lparr>content = formatToLRC lyrics, format = Lrc, metadata = md\<rparr>
      | Json \<Rightarrow>
          Inr \<lparr>content = stringify lyrics, format = Json, metadata = md\<rparr>)"

text \<open>
  \<open>calculateSimilarity\<close>.  The matrix has \<open>s2.length + 1\<close> rows of \<open>s1.length + 1\<close>
  cells, all \<open>null\<close> at first; a \<open>null\<close> read in an addition counts as 0.  Every index the
  loops use is inside the matrix.
\<close>

type_synonym matrix = "nat option list list"

definition num :: "nat option \<Rightarrow> nat" where
  "num cell = (case cell of None \<Rightarrow> 0 | Some v \<Rightarrow> v)"

definition new_matrix :: "nat \<Rightarrow> nat \<Rightarrow> matrix" where
  "new_matrix rows cols = replicate rows (replicate cols None)"

definition fill_first_row :: "nat \<Rightarrow> matrix \<Rightarrow> matrix" where
  "fill_first_row n1 m = fold (\<lambda>i m. m[0 := (m ! 0)[i := Some i]]) [0..<Suc n1] m"

definition fill_first_col :: "nat \<Rightarrow> matrix \<Rightarrow> matrix" where
  "fill_first_col n2 m = fold (\<lambda>j m. m[j := (m ! j)[0 := Some j]]) [0..<Suc n2] m"

definition fill_cell :: "string \<Rightarrow> string \<Rightarrow> nat \<Rightarrow> nat \<Rightarrow> matrix \<Rightarrow> matrix" where
  "fill_cell s1 s2 j i m =
     (let cost = (if s1 ! (i - 1) = s2 ! (j - 1) then 0 else 1)
      in m[j := (m ! j)[i := Some (min (num (m ! j ! (i - 1)) + 1)
                                    (min (num (m ! (j - 1) ! i) + 1)
                                         (num (m ! (j - 1) ! (i - 1)) + cost)))]])"

definition fill_matrix :: "string \<Rightarrow> string \<Rightarrow> matrix \<Rightarrow> matrix" where
  "fill_matrix s1 s2 m =
     fold (\<lambda>j m. fold (fill_cell s1 s2 j) [1..<Suc (length s1)] m) [1..<Suc (length s2)] m"

definition levenshtein :: "string \<Rightarrow> string \<Rightarrow> nat" where
  "levenshtein s1 s2 =
     num (fill_matrix s1 s2
            (fill_first_col (length s2)
               (fill_first_row (length s1)
                  (new_matrix (length s2 + 1) (length s1 + 1)))) ! length s2 ! length s1)"

definition calculateSimilarity :: "string \<Rightarrow> string \<Rightarrow> rat" where
  "calculateSimilarity str1 str2 =
     (let s1 = trim (toLowerCase str1);
          s2 = trim (toLowerCase str2)
      in if s1 = s2 then 1
         else (let maxLength = max (length s1) (length s2)
               in if maxLength = 0 then 1
                  else (of_nat maxLength - of_nat (levenshtein s1 s2)) / of_nat maxLength))"

text \<open>
  \<open>validateQuery\<close>.  The argument is the object as it arrives at run time: any property
  may be missing or hold a value that is not a string.
\<close>

record LyricsQuery =
  track_name :: string
  artist_name :: string
  album_name :: "string option"

definition blank_or_no_string :: "jsval \<Rightarrow> bool" where
  "blank_or_no_string v = (case v of JStr s \<Rightarrow> length (trim s) = 0 | _ \<Rightarrow> True)"

definition trimmed :: "jsval \<Rightarrow> string" where
  "trimmed v = (case v of JStr s \<Rightarrow> trim s | _ \<Rightarrow> [])"

definition validateQuery :: "js_object \<Rightarrow> error + LyricsQuery" where
  "validateQuery query =
     (if \<not> truthy (get_prop query ''track_name'') \<or> \<not> truthy (get_prop query ''artist_name'')
      then Inl (ValidationError ''track_name and artist_name are required'')
      else if blank_or_no_string (get_prop query ''track_name'')
      then Inl (ValidationError ''track_name must be a non-empty string'')
      else if blank_or_no_string (get_prop query ''artist_name'')
      then Inl (ValidationError ''artist_name must be a non-empty string'')
      else if truthy (get_prop query ''album_name'') \<and> blank_or_no_string (get_prop query ''album_name'')
      then Inl (ValidationError ''album_name must be a non-empty string when provided'')
      else Inr \<lparr>track_name = trimmed (get_prop query ''track_name''),
                artist_name = trimmed (get_prop query ''artist_name''),
                album_name = (if truthy (get_prop query ''album_name'')
                              then Some (trimmed (get_prop query ''album_name'')) else None)\<rparr>)"

section \<open>Client (\<open>client.ts\<close>)\<close>

text \<open>The options after the defaults and the caller's options are merged.\<close>

record ClientOptions =
  enableCache :: bool
  cacheTTL :: int
  enableRateLimit :: bool
  maxRequestsPerMinute :: rat
  requestTimeout :: int
  userAgent :: string

record SearchResult =
  result_metadata :: TrackMetadata
  score :: rat
  hasSyncedLyrics :: bool
  hasUnsyncedLyrics :: bool

text \<open>
  What the client stores in its cache: the result array of \<open>searchSong\<close>, the formatted
  lyrics of the lyrics operations, the metadata of \<open>findLyrics\<close>.  All of them are arrays or
  objects, so the test \<open>if (cached)\<close> on a stored value always succeeds.
\<close>

datatype cached = CachedResults "SearchResult list" | CachedLyrics FormattedLyrics
  | CachedMetadata TrackMetadata

record Client =
  client_cache :: "cached Cache"
  rateLimiter :: RateLimiter
  options :: ClientOptions

definition new_Client :: "int \<Rightarrow> ClientOptions \<Rightarrow> Client" where
  "new_Client now opts =
     \<lparr>client_cache = new_Cache (cacheTTL opts),
      rateLimiter = new_RateLimiter now (maxRequestsPerMinute opts) 60000,
      options = opts\<rparr>"

fun message :: "error \<Rightarrow> string" where
  "message (RateLimitError m) = m"
| "message (NotFoundError m) = m"
| "message (TimeoutError m) = m"
| "message (ValidationError m) = m"
| "message (Error m) = m"

text \<open>
  \<open>getLyricsById\<close>.  The body runs without an \<open>await\<close>; \<open>now_get\<close> and \<open>now_check\<close> are
  the clock readings of \<open>cache.get\<close> and \<open>checkLimit\<close>.  The result is the rejection or the
  resolved value, and the client as the call leaves it.
\<close>

definition getLyricsById ::
  "int \<Rightarrow> int \<Rightarrow> int \<Rightarrow> js_object \<Rightarrow> Client \<Rightarrow> (error + cached) \<times> Client" where
  "getLyricsById now_get now_check trackId opts c =
     (let lyricsOptions =
            spread [(''synced'', JBool False), (''includeMetadata'', JBool True),
                    (''format'', JStr ''json'')] opts;
          cacheKey = generateKey ''lyrics_by_id''
                       (spread [(''trackId'', JNum trackId)] lyricsOptions);
          looked = (if enableCache (options c)
                    then get now_get cacheKey (client_cache c)
                    else (None, client_cache c));
          c1 = c\<lparr>client_cache := snd looked\<rparr>
      in case fst looked of
           Some v \<Rightarrow> (Inr v, c1)
         | None \<Rightarrow>
             if enableRateLimit (options c1)
             then (case fst (checkLimit now_check (rateLimiter c1)) of
                     Inl e \<Rightarrow>
                       (Inl (Error (''Failed to get lyrics by ID: '' @ message e)),
                        c1\<lparr>rateLimiter := snd (checkLimit now_check (rateLimiter c1))\<rparr>)
                   | Inr u \<Rightarrow>
                       (Inl (NotFoundError
                          ''getLyricsById is not yet implemented - use searchSong and getLyricsByMetadata instead''),
                        c1\<lparr>rateLimiter := snd (checkLimit now_check (rateLimiter c1))\<rparr>))
             else (Inl (NotFoundError
                     ''getLyricsById is not yet implemented - use searchSong and getLyricsByMetadata instead''),
                   c1))"

text \<open>
  The states of a client.  Its cache and limiter are private, so they change only at the
  calls the class itself makes: \<open>cache.get\<close> at the start of every operation,
  \<open>cache.set\<close> at the end of \<open>searchSong\<close>, \<open>getLyricsByMetadata\<close>, \<open>getUnsynced\<close>,
  \<open>getSynced\<close> and \<open>findLyrics\<close> (each under a key that \<open>generateKey\<close> builds from the
  operation's own prefix), \<open>cache.clear\<close> in \<open>clearCache\<close>, \<open>cache.clean\<close> in
  \<open>getCacheStats\<close>, \<open>checkLimit\<close> in every operation and \<open>reset\<close> in
  \<open>resetRateLimit\<close>.  The relation lets these calls happen in any order, with any
  arguments and at any time, which covers every interleaving of the asynchronous operations.
\<close>

definition set_prefixes :: "string list" where
  "set_prefixes = [''search'', ''lyrics_by_metadata'', ''unsynced'', ''synced'', ''metadata'']"

inductive reachable :: "Client \<Rightarrow> bool" where
  constructed: "reachable (new_Client now opts)"
| cache_get: "reachable c \<Longrightarrow>
     reachable (c\<lparr>client_cache := snd (get now key (client_cache c))\<rparr>)"
| cache_set: "reachable c \<Longrightarrow> prefix \<in> set set_prefixes \<Longrightarrow>
     reachable (c\<lparr>client_cache := set_c now (generateKey prefix query) v None (client_cache c)\<rparr>)"
| clearCache: "reachable c \<Longrightarrow> reachable (c\<lparr>client_cache := clear (client_cache c)\<rparr>)"
| getCacheStats: "reachable c \<Longrightarrow>
     reachable (c\<lparr>client_cache := snd (clean now (client_cache c))\<rparr>)"
| check_limit: "reachable c \<Longrightarrow>
     reachable (c\<lparr>rateLimiter := snd (checkLimit now (rateLimiter c))\<rparr>)"
| resetRateLimit: "reachable c \<Longrightarrow> reachable (c\<lparr>rateLimiter := reset now (rateLimiter c)\<rparr>)"
| lyrics_by_id: "reachable c \<Longrightarrow>
     reachable (snd (getLyricsById now_get now_check trackId opts c))"

section \<open>Notions used in the statements and proofs\<close>

text \<open>
  The input type of \<open>formatLyrics\<close> is \<open>UnsyncedLyricsLine[] | SyncedLyricsLine[]\<close>: a
  sequence is of one variant, either no line has a start time or every line has one.
\<close>

definition one_variant :: "LyricsLine list \<Rightarrow> bool" where
  "one_variant lyrics =
     (list_all (\<lambda>line. startTime line = None) lyrics
      \<or> list_all (\<lambda>line. startTime line \<noteq> None) lyrics)"

text \<open>
  The timestamp as the specification words it, for a start time of \<open>ms\<close> whole
  milliseconds: minutes \<open>floor(ms/60000)\<close>, seconds \<open>floor((ms mod 60000)/1000)\<close> and
  centiseconds \<open>floor((ms mod 1000)/10)\<close>, each in decimal digits with a leading zero
  when it is below ten.
\<close>

definition two_digits_spec :: "nat \<Rightarrow> string" where
  "two_digits_spec n = (if n < 10 then [CHR ''0'', digit_char n] else nat_toString n)"

definition lrc_timestamp_spec :: "nat \<Rightarrow> string" where
  "lrc_timestamp_spec ms =
     ''['' @ two_digits_spec (ms div 60000) @ '':'' @ two_digits_spec ((ms mod 60000) div 1000)
       @ ''.'' @ two_digits_spec ((ms mod 1000) div 10) @ '']''"

text \<open>A synced line, from its text and a start time that is a natural number.\<close>

definition synced_line :: "string \<times> nat \<Rightarrow> LyricsLine" where
  "synced_line p = \<lparr>text = fst p, startTime = Some (int (snd p))\<rparr>"

text \<open>
  The recurrence that the loops of \<open>calculateSimilarity\<close> tabulate: \<open>lev s1 s2 i j\<close> is the
  entry for the first \<open>i\<close> characters of \<open>s1\<close> and the first \<open>j\<close> characters of \<open>s2\<close>.
\<close>

fun lev :: "'a list \<Rightarrow> 'a list \<Rightarrow> nat \<Rightarrow> nat \<Rightarrow> nat" where
  "lev s1 s2 0 j = j"
| "lev s1 s2 (Suc i) 0 = Suc i"
| "lev s1 s2 (Suc i) (Suc j) =
     min (lev s1 s2 i (Suc j) + 1)
         (min (lev s1 s2 (Suc i) j + 1)
              (lev s1 s2 i j + (if s1 ! i = s2 ! j then 0 else 1)))"

text \<open>The number in a cell, the shape of the matrix, and how far the loops have filled it.\<close>

definition cell :: "matrix \<Rightarrow> nat \<Rightarrow> nat \<Rightarrow> nat" where
  "cell m j i = num (m ! j ! i)"

definition shaped :: "matrix \<Rightarrow> nat \<Rightarrow> nat \<Rightarrow> bool" where
  "shaped m rows cols = (length m = rows \<and> (\<forall>j<rows. length (m ! j) = cols))"

definition filled :: "'a list \<Rightarrow> 'a list \<Rightarrow> matrix \<Rightarrow> nat \<Rightarrow> nat \<Rightarrow> bool" where
  "filled s1 s2 m jc ic =
     (\<forall>j i. j \<le> length s2 \<and> i \<le> length s1
              \<and> (j = 0 \<or> i = 0 \<or> j < jc \<or> (j = jc \<and> i < ic))
        \<longrightarrow> cell m j i = lev s1 s2 i j)"

text \<open>A cache that holds no entry under a key of \<open>getLyricsById\<close>.\<close>

definition by_id_free :: "'v Cache \<Rightarrow> bool" where
  "by_id_free c = (\<forall>r. fmlookup (cache c) (''lyrics_by_id:'' @ r) = None)"

section \<open>Example inputs\<close>


text \<open>The lines of the tests, unsynced and synced, and three synced lines by text and time.\<close>

definition unsynced_lines :: "LyricsLine list" where
  "unsynced_lines =
     [\<lparr>text = ''Line 1'', startTime = None\<rparr>, \<lparr>text = ''Line 2'', startTime = None\<rparr>]"

definition synced_lines :: "LyricsLine list" where
  "synced_lines =
     [\<lparr>text = ''Line 1'', startTime = Some 0\<rparr>, \<lparr>text = ''Line 2'', startTime = Some 1000\<rparr>]"

definition timed_lines :: "(string \<times> nat) list" where
  "timed_lines = [(''Intro'', 0), (''Verse'', 83450), (''Outro'', 6123456)]"

text \<open>
  A cache with one entry set at time 0 with the default lifetime, and the same cache after
  \<open>set('k', 7, 500)\<close> at time 1000.
\<close>

definition base_cache :: "nat Cache" where
  "base_cache = set_c 0 ''j'' 3 None (new_Cache 300000)"

definition small_cache :: "nat Cache" where
  "small_cache = set_c 1000 ''k'' 7 (Some 500) base_cache"

text \<open>Two objects with the same properties in a different insertion order.\<close>

definition query_ab :: js_object where
  "query_ab = [(''track_name'', JStr ''a''), (''limit'', JNum 10), (''artist_name'', JStr ''b'')]"

definition query_ba :: js_object where
  "query_ba = [(''artist_name'', JStr ''b''), (''track_name'', JStr ''a''), (''limit'', JNum 10)]"

text \<open>Queries for \<open>validateQuery\<close>.\<close>

definition query_no_artist :: js_object where
  "query_no_artist = [(''track_name'', JStr ''Test Song'')]"

definition query_blank_album :: js_object where
  "query_blank_album =
     [(''track_name'', JStr ''Test Song''), (''artist_name'', JStr ''Test Artist''),
      (''album_name'', JStr ''  '')]"

definition query_empty_album :: js_object where
  "query_empty_album =
     [(''track_name'', JStr ''a''), (''artist_name'', JStr ''b''), (''album_name'', JStr [])]"

definition query_padded :: js_object where
  "query_padded =
     [(''track_name'', JStr ''  Test Song  ''), (''artist_name'', JStr ''  Test Artist  '')]"

definition query_album :: js_object where
  "query_album =
     [(''track_name'', JStr ''Test Song''), (''artist_name'', JStr ''Test Artist''),
      (''album_name'', JStr '' Test Album'')]"

text \<open>A client with the default options that has cached one result of \<open>getLyricsByMetadata\<close>.\<close>

definition default_options :: ClientOptions where
  "default_options =
     \<lparr>enableCache = True, cacheTTL = 300000, enableRateLimit = True,
      maxRequestsPerMinute = 60, requestTimeout = 10000, userAgent = ''lyrlib-api/1.0.0''\<rparr>"

definition used_client :: Client where
  "used_client =
     (new_Client 0 default_options)
       \<lparr>client_cache :=
          set_c 5 (generateKey ''lyrics_by_metadata'' [(''trackId'', JNum 42)])
            (CachedLyrics \<lparr>content = ''la'', format = Plain, metadata = None\<rparr>) None
            (client_cache (new_Client 0 default_options))\<rparr>"

section \<open>Properties of the rate limiter\<close>

lemma checkLimit_requests_bound:
  "of_int (requests (state rl)) < maxRequests rl + 1 \<Longrightarrow> 0 \<le> maxRequests rl \<Longrightarrow>
   of_int (requests (state (snd (checkLimit now rl)))) < maxRequests rl + 1"
  by (simp add: checkLimit_def Let_def)

lemma checkLimit_maxRequests [simp]: "maxRequests (snd (checkLimit now rl)) = maxRequests rl"
  by (simp add: checkLimit_def Let_def)

lemma limiter_step_maxRequests [simp]: "maxRequests (limiter_step rl c) = maxRequests rl"
  by (cases c) (simp_all add: reset_def)

lemma limiter_step_requests_bound:
  "of_int (requests (state rl)) < maxRequests rl + 1 \<Longrightarrow> 0 \<le> maxRequests rl \<Longrightarrow>
   of_int (requests (state (limiter_step rl c))) < maxRequests rl + 1"
  by (cases c) (simp_all add: checkLimit_requests_bound reset_def)

lemma limiter_run_requests_bound:
  "of_int (requests (state rl)) < maxRequests rl + 1 \<Longrightarrow> 0 \<le> maxRequests rl \<Longrightarrow>
   of_int (requests (state (limiter_run rl calls))) < maxRequests rl + 1
   \<and> maxRequests (limiter_run rl calls) = maxRequests rl"
  unfolding limiter_run_def
proof (induction calls arbitrary: rl)
  case Nil
  then show ?case by simp
next
  case (Cons c calls)
  have "of_int (requests (state (limiter_step rl c))) < maxRequests (limiter_step rl c) + 1"
    using Cons.prems by (simp add: limiter_step_requests_bound)
  moreover have "0 \<le> maxRequests (limiter_step rl c)"
    using Cons.prems by simp
  ultimately show ?case
    using Cons.IH [of "limiter_step rl c"] by simp
qed




text \<open>
  C9 (as amended).  A limiter constructed with a ceiling that is a whole number \<open>n \<ge> 0\<close>
  starts with count 0, and after every sequence of \<open>checkLimit\<close>, \<open>getStatus\<close> and
  \<open>reset\<close> calls, whatever the clock reads at each, the count is at most \<open>n\<close>.  For any
  ceiling \<open>N \<ge> 0\<close> the count starts at 0 and stays below \<open>N + 1\<close>.
\<close>

theorem limiter_count_bounded:
  "(0 \<le> n \<longrightarrow>
      requests (state (new_RateLimiter t0 (of_int n) w)) = 0
      \<and> requests (state (limiter_run (new_RateLimiter t0 (of_int n) w) calls)) \<le> n)
   \<and> (0 \<le> N \<longrightarrow>
      requests (state (new_RateLimiter t0 N w)) = 0
      \<and> of_int (requests (state (limiter_run (new_RateLimiter t0 N w) calls))) < N + 1)"
proof (intro conjI impI)
  assume n: "0 \<le> n"
  show "requests (state (new_RateLimiter t0 (of_int n) w)) = 0"
    by (simp add: new_RateLimiter_def)
  have "(of_int (requests (state (limiter_run (new_RateLimiter t0 (of_int n) w) calls))) :: rat)
      < of_int n + 1"
    using n limiter_run_requests_bound [of "new_RateLimiter t0 (of_int n) w" calls]
    by (simp add: new_RateLimiter_def)
  then have "(of_int (requests (state (limiter_run (new_RateLimiter t0 (of_int n) w) calls))) :: rat)
      < of_int (n + 1)"
    by simp
  then have "requests (state (limiter_run (new_RateLimiter t0 (of_int n) w) calls)) < n + 1"
    by (simp only: of_int_less_iff)
  then show "requests (state (limiter_run (new_RateLimiter t0 (of_int n) w) calls)) \<le> n"
    by simp
next
  assume N: "0 \<le> N"
  show "requests (state (new_RateLimiter t0 N w)) = 0"
    by (simp add: new_RateLimiter_def)
  show "of_int (requests (state (limiter_run (new_RateLimiter t0 N w) calls))) < N + 1"
    using N limiter_run_requests_bound [of "new_RateLimiter t0 N w" calls]
    by (simp add: new_RateLimiter_def)
qed

theorem limiter_count_bounded_witness:
  "(0::int) \<le> 1
   \<and> requests (state (new_RateLimiter 0 (of_int 1) 60000)) = 0
   \<and> requests (state (limiter_run (new_RateLimiter 0 (of_int 1) 60000)
        [CheckLimit 10, CheckLimit 20, GetStatus, Reset 30, CheckLimit 40, CheckLimit 50])) \<le> 1
   \<and> (0::rat) \<le> 3 / 2
   \<and> of_int (requests (state (limiter_run (new_RateLimiter 0 (3 / 2) 60000)
        [CheckLimit 10, CheckLimit 20, CheckLimit 30]))) < (3 / 2 :: rat) + 1"
proof -
  have a1: "(0::int) \<le> 1" by simp
  have a2: "(0::rat) \<le> 3 / 2" by simp
  from a1 limiter_count_bounded [where n = 1 and ?t0.0 = 0 and w = 60000
      and calls = "[CheckLimit 10, CheckLimit 20, GetStatus, Reset 30, CheckLimit 40, CheckLimit 50]"]
  have c1: "requests (state (new_RateLimiter 0 (of_int 1) 60000)) = 0
   \<and> requests (state (limiter_run (new_RateLimiter 0 (of_int 1) 60000)
        [CheckLimit 10, CheckLimit 20, GetStatus, Reset 30, CheckLimit 40, CheckLimit 50])) \<le> 1"
    by blast
  from a2 limiter_count_bounded [where N = "3 / 2" and ?t0.0 = 0 and w = 60000
      and calls = "[CheckLimit 10, CheckLimit 20, CheckLimit 30]"]
  have c2: "of_int (requests (state (limiter_run (new_RateLimiter 0 (3 / 2) 60000)
        [CheckLimit 10, CheckLimit 20, CheckLimit 30]))) < (3 / 2 :: rat) + 1"
    by blast
  from a1 a2 c1 c2 show ?thesis by blast
qed

text \<open>
  C9 as stated fails for the ceiling \<open>N = 1.5\<close>: the first two calls of \<open>checkLimit\<close>
  find the count below the ceiling and increment it, so the limiter records 2 requests.
\<close>

theorem limiter_fractional_ceiling_counterexample:
  "(0::rat) \<le> 3 / 2
   \<and> requests (state (limiter_run (new_RateLimiter 0 (3 / 2) 60000)
        [CheckLimit 10, CheckLimit 20])) = 2
   \<and> (3 / 2 :: rat) < of_int 2"
  by code_simp

section \<open>Properties of the formatter\<close>

text \<open>
  C10.  The empty sequence does not count as synced, so formatting it as \<open>lrc\<close> throws a
  \<open>ValidationError\<close>; formatting it as \<open>plain\<close> returns the empty string as content.
\<close>

theorem formatLyrics_empty:
  "\<not> isSyncedLyrics []
   \<and> formatLyrics stringify [] (Some Lrc) md
     = Inl (ValidationError ''LRC format requires synced lyrics'')
   \<and> formatLyrics stringify [] (Some Plain) md
     = Inr \<lparr>content = [], format = Plain, metadata = md\<rparr>"
  by (simp add: formatLyrics_def isSyncedLyrics_def)

text \<open>
  C4.  On a sequence of one variant, formatting as \<open>lrc\<close> throws a \<open>ValidationError\<close>
  whenever some line has no start time; and the requirement is all there is: a non-empty
  sequence in which every line has a start time is rendered.
\<close>

theorem formatLyrics_lrc_requires_synced:
  "(one_variant lyrics \<and> (\<exists>line \<in> set lyrics. startTime line = None) \<longrightarrow>
      formatLyrics stringify lyrics (Some Lrc) md
        = Inl (ValidationError ''LRC format requires synced lyrics''))
   \<and> (lyrics \<noteq> [] \<and> (\<forall>line \<in> set lyrics. startTime line \<noteq> None) \<longrightarrow>
      formatLyrics stringify lyrics (Some Lrc) md
        = Inr \<lparr>content = formatToLRC lyrics, format = Lrc, metadata = md\<rparr>)"
proof (intro conjI impI)
  assume h: "one_variant lyrics \<and> (\<exists>line \<in> set lyrics. startTime line = None)"
  then obtain line where line: "line \<in> set lyrics" "startTime line = None" by blast
  then have "\<not> list_all (\<lambda>line. startTime line \<noteq> None) lyrics"
    by (auto simp: list_all_iff)
  with h have all: "\<forall>line \<in> set lyrics. startTime line = None"
    unfolding one_variant_def list_all_iff by blast
  from line obtain l ls where "lyrics = l # ls" by (cases lyrics) auto
  with all have "\<not> isSyncedLyrics lyrics"
    by (simp add: isSyncedLyrics_def)
  then show "formatLyrics stringify lyrics (Some Lrc) md
        = Inl (ValidationError ''LRC format requires synced lyrics'')"
    by (simp add: formatLyrics_def)
next
  assume h: "lyrics \<noteq> [] \<and> (\<forall>line \<in> set lyrics. startTime line \<noteq> None)"
  then obtain l ls where "lyrics = l # ls" by (cases lyrics) auto
  with h have "isSyncedLyrics lyrics"
    by (auto simp: isSyncedLyrics_def)
  then show "formatLyrics stringify lyrics (Some Lrc) md
        = Inr \<lparr>content = formatToLRC lyrics, format = Lrc, metadata = md\<rparr>"
    by (simp add: formatLyrics_def)
qed

theorem formatLyrics_lrc_requires_synced_witness:
  "one_variant unsynced_lines
   \<and> startTime (unsynced_lines ! 1) = None
   \<and> formatLyrics (\<lambda>ls. []) unsynced_lines (Some Lrc) None
       = Inl (ValidationError ''LRC format requires synced lyrics'')
   \<and> synced_lines \<noteq> []
   \<and> list_all (\<lambda>line. startTime line \<noteq> None) synced_lines
   \<and> formatLyrics (\<lambda>ls. []) synced_lines (Some Lrc) None
       = Inr \<lparr>content = ''[00:00.00]Line 1'' @ [CHR 0x0A] @ ''[00:01.00]Line 2'',
              format = Lrc, metadata = None\<rparr>"
proof -
  have a1: "one_variant unsynced_lines"
    by (simp add: one_variant_def unsynced_lines_def)
  have a2: "startTime (unsynced_lines ! 1) = None"
    by (simp add: unsynced_lines_def)
  then have a2': "\<exists>line \<in> set unsynced_lines. startTime line = None"
    by (auto simp: unsynced_lines_def)
  have a3: "synced_lines \<noteq> []"
    by (simp add: synced_lines_def)
  have a4: "list_all (\<lambda>line. startTime line \<noteq> None) synced_lines"
    by (simp add: synced_lines_def)
  then have a4': "\<forall>line \<in> set synced_lines. startTime line \<noteq> None"
    by (simp add: list_all_iff)
  have v: "formatToLRC synced_lines = ''[00:00.00]Line 1'' @ [CHR 0x0A] @ ''[00:01.00]Line 2''"
    by code_simp
  from a1 a2' formatLyrics_lrc_requires_synced
    [where lyrics = unsynced_lines and stringify = "\<lambda>ls. []" and md = None]
  have c1: "formatLyrics (\<lambda>ls. []) unsynced_lines (Some Lrc) None
       = Inl (ValidationError ''LRC format requires synced lyrics'')"
    by blast
  from a3 a4' formatLyrics_lrc_requires_synced
    [where lyrics = synced_lines and stringify = "\<lambda>ls. []" and md = None]
  have c2: "formatLyrics (\<lambda>ls. []) synced_lines (Some Lrc) None
       = Inr \<lparr>content = formatToLRC synced_lines, format = Lrc, metadata = None\<rparr>"
    by blast
  from a1 a2 a3 a4 c1 c2 show ?thesis by (simp only: v) blast
qed

section \<open>Properties of the cache\<close>

lemma get_after_set:
  "now' - now \<le> (case ttl_arg of None \<Rightarrow> defaultTTL c | Some t \<Rightarrow> t) \<Longrightarrow>
   get now' k (set_c now k v ttl_arg c) = (Some v, set_c now k v ttl_arg c)"
  by (simp add: get_def set_c_def Let_def)

lemma get_expired:
  assumes "fmlookup (cache c) k = Some e" and "now - timestamp e > ttl e"
  shows "fst (get now k c) = None"
    and "fmlookup (cache (snd (get now k c))) k = None"
    and "Suc (size_c (snd (get now k c))) = size_c c"
proof -
  show "fst (get now k c) = None" using assms by (simp add: get_def)
  show "fmlookup (cache (snd (get now k c))) k = None" using assms by (simp add: get_def)
  have "k |\<in>| fmdom (cache c)" using assms(1) by (simp add: fmdomI)
  then have "Suc (fcard (fmdom (cache c) |-| {|k|})) = fcard (fmdom (cache c))"
    by (rule fcard_Suc_fminus1)
  moreover have "cache (snd (get now k c)) = fmdrop k (cache c)"
    using assms by (simp add: get_def)
  ultimately show "Suc (size_c (snd (get now k c))) = size_c c"
    by (simp only: size_c_def fmdom_drop)
qed

text \<open>
  C2 (as amended).  After \<open>set(k, v, ttl)\<close>, a \<open>get(k)\<close> at which the elapsed time is at most
  the entry's lifetime (the given \<open>ttl\<close>, or the default when none is given) returns \<open>v\<close> and
  leaves the cache as it is; this covers the immediate \<open>get\<close> whenever that lifetime is not
  negative.  Once the elapsed time since an entry was set exceeds its lifetime, \<open>get\<close>
  returns \<open>null\<close> and removes the entry, so \<open>size()\<close> goes down by one.
\<close>

theorem cache_roundtrip_and_expiry:
  "(now' - now \<le> (case ttl_arg of None \<Rightarrow> defaultTTL c | Some t \<Rightarrow> t) \<longrightarrow>
      get now' k (set_c now k v ttl_arg c) = (Some v, set_c now k v ttl_arg c))
   \<and> (fmlookup (cache c) k = Some e \<and> now - timestamp e > ttl e \<longrightarrow>
      fst (get now k c) = None
      \<and> fmlookup (cache (snd (get now k c))) k = None
      \<and> Suc (size_c (snd (get now k c))) = size_c c)"
  by (simp add: get_after_set get_expired)

theorem cache_roundtrip_and_expiry_witness:
  "(1000 - 1000 \<le> (case Some 500 of None \<Rightarrow> defaultTTL base_cache | Some t \<Rightarrow> t))
   \<and> get 1000 ''k'' (set_c 1000 ''k'' 7 (Some 500) base_cache)
       = (Some 7, set_c 1000 ''k'' 7 (Some 500) base_cache)
   \<and> (fmlookup (cache small_cache) ''k'' = Some \<lparr>data = 7, timestamp = 1000, ttl = 500\<rparr>
      \<and> 1501 - timestamp \<lparr>data = 7::nat, timestamp = 1000, ttl = 500\<rparr>
          > ttl \<lparr>data = 7::nat, timestamp = 1000, ttl = 500\<rparr>)
   \<and> fst (get 1501 ''k'' small_cache) = None
   \<and> fmlookup (cache (snd (get 1501 ''k'' small_cache))) ''k'' = None
   \<and> Suc (size_c (snd (get 1501 ''k'' small_cache))) = size_c small_cache"
proof -
  have a1: "(1000::int) - 1000 \<le> (case Some 500 of None \<Rightarrow> defaultTTL base_cache | Some t \<Rightarrow> t)"
    by simp
  have a2: "fmlookup (cache small_cache) ''k'' = Some \<lparr>data = 7, timestamp = 1000, ttl = 500\<rparr>
      \<and> 1501 - timestamp \<lparr>data = 7::nat, timestamp = 1000, ttl = 500\<rparr>
          > ttl \<lparr>data = 7::nat, timestamp = 1000, ttl = 500\<rparr>"
    by (simp add: small_cache_def set_c_def)
  from a1 cache_roundtrip_and_expiry
    [where now' = 1000 and now = 1000 and ttl_arg = "Some 500" and c = base_cache
       and k = "''k''" and v = 7]
  have c1: "get 1000 ''k'' (set_c 1000 ''k'' 7 (Some 500) base_cache)
       = (Some 7, set_c 1000 ''k'' 7 (Some 500) base_cache)"
    by blast
  from a2 cache_roundtrip_and_expiry
    [where c = small_cache and k = "''k''" and now = 1501
       and e = "\<lparr>data = 7, timestamp = 1000, ttl = 500\<rparr>"]
  have c2: "fst (get 1501 ''k'' small_cache) = None
   \<and> fmlookup (cache (snd (get 1501 ''k'' small_cache))) ''k'' = None
   \<and> Suc (size_c (snd (get 1501 ''k'' small_cache))) = size_c small_cache"
    by blast
  from a1 a2 c1 c2 show ?thesis by blast
qed

text \<open>
  C2 as stated fails for a negative \<open>ttl\<close>: the entry is expired at the time it is set, and
  the immediate \<open>get\<close> returns \<open>null\<close> and removes it.
\<close>

theorem cache_negative_ttl_counterexample:
  "get 1000 ''k'' (set_c 1000 ''k'' (7::nat) (Some (- 1)) (new_Cache 300000))
     = (None, new_Cache 300000)"
  by code_simp


section \<open>Properties of the cache key\<close>

lemma sort_keys_eq:
  assumes "distinct (map fst q)" and "distinct (map fst q')" and "set q = set q'"
  shows "sort (Object_keys q) = sort (Object_keys q')"
proof (rule sorted_distinct_set_unique)
  show "sorted (sort (Object_keys q))" and "sorted (sort (Object_keys q'))"
    by simp_all
  show "distinct (sort (Object_keys q))" and "distinct (sort (Object_keys q'))"
    using assms by (simp_all add: Object_keys_def)
  show "set (sort (Object_keys q)) = set (sort (Object_keys q'))"
    using assms(3) by (simp add: Object_keys_def)
qed

lemma get_prop_eq:
  assumes "distinct (map fst q)" and "distinct (map fst q')" and "set q = set q'"
  shows "get_prop q = get_prop q'"
proof -
  have "map_of q = map_of q'"
    using assms by (simp add: map_of_inject_set)
  then show ?thesis by (simp add: get_prop_def fun_eq_iff)
qed

text \<open>
  C6.  Two objects with the same properties, in whatever insertion order, give the same
  key under one prefix; and two different prefixes never give the same key for one object.
\<close>

theorem generateKey_order_and_prefix:
  "(distinct (map fst q) \<and> distinct (map fst q') \<and> set q = set q' \<longrightarrow>
      generateKey p q = generateKey p q')
   \<and> (p \<noteq> p' \<longrightarrow> generateKey p q \<noteq> generateKey p' q)"
proof (intro conjI impI)
  assume "distinct (map fst q) \<and> distinct (map fst q') \<and> set q = set q'"
  then show "generateKey p q = generateKey p q'"
    by (simp add: generateKey_def Let_def sort_keys_eq [of q q'] get_prop_eq [of q q'])
next
  assume "p \<noteq> p'"
  then show "generateKey p q \<noteq> generateKey p' q"
    by (simp add: generateKey_def Let_def)
qed

theorem generateKey_order_and_prefix_witness:
  "(distinct (map fst query_ab) \<and> distinct (map fst query_ba) \<and> set query_ab = set query_ba)
   \<and> generateKey ''search'' query_ab = generateKey ''search'' query_ba
   \<and> generateKey ''search'' query_ab = ''search:artist_name:b|limit:10|track_name:a''
   \<and> ''search'' \<noteq> ''metadata''
   \<and> generateKey ''search'' query_ab \<noteq> generateKey ''metadata'' query_ab"
proof -
  have a1: "distinct (map fst query_ab) \<and> distinct (map fst query_ba)
      \<and> set query_ab = set query_ba"
    by (auto simp: query_ab_def query_ba_def)
  have a2: "''search'' \<noteq> ''metadata''" by simp
  have v: "generateKey ''search'' query_ab = ''search:artist_name:b|limit:10|track_name:a''"
    by code_simp
  from a1 generateKey_order_and_prefix [of query_ab query_ba "''search''"]
  have c1: "generateKey ''search'' query_ab = generateKey ''search'' query_ba"
    by blast
  from a2 generateKey_order_and_prefix [where p = "''search''" and p' = "''metadata''" and q = query_ab]
  have c2: "generateKey ''search'' query_ab \<noteq> generateKey ''metadata'' query_ab"
    by blast
  from a1 a2 v c1 c2 show ?thesis by blast
qed

section \<open>Properties of the query validator\<close>

lemma trim_Nil_imp: "trim t \<noteq> [] \<Longrightarrow> t \<noteq> []"
  by (auto simp: trim_def)

text \<open>
  C3 (as amended).  \<open>validateQuery\<close> throws a \<open>ValidationError\<close> whenever \<open>track_name\<close> or
  \<open>artist_name\<close> is missing, not a string, or trims to empty, and whenever \<open>album_name\<close> is
  a non-empty string that trims to empty.  When it returns, the track and artist names are
  the trimmed inputs, and \<open>album_name\<close> is the trimmed input when that is a non-empty
  string, and is left out otherwise; in particular an album name that is missing or the
  empty string is left out and does not make the call fail.
\<close>

theorem validateQuery_spec:
  "((\<forall>s. get_prop q ''track_name'' = JStr s \<longrightarrow> trim s = [])
      \<or> (\<forall>s. get_prop q ''artist_name'' = JStr s \<longrightarrow> trim s = [])
      \<or> (\<exists>s. get_prop q ''album_name'' = JStr s \<and> s \<noteq> [] \<and> trim s = [])
    \<longrightarrow> (\<exists>msg. validateQuery q = Inl (ValidationError msg)))
   \<and> (validateQuery q = Inr r \<longrightarrow>
        (\<exists>t a. get_prop q ''track_name'' = JStr t \<and> get_prop q ''artist_name'' = JStr a
           \<and> track_name r = trim t \<and> artist_name r = trim a)
        \<and> album_name r = (case get_prop q ''album_name'' of
                             JStr b \<Rightarrow> if b = [] then None else Some (trim b)
                           | _ \<Rightarrow> None))
   \<and> (get_prop q ''track_name'' = JStr t \<and> trim t \<noteq> []
        \<and> get_prop q ''artist_name'' = JStr a \<and> trim a \<noteq> []
        \<and> (get_prop q ''album_name'' = JUndefined \<or> get_prop q ''album_name'' = JStr [])
      \<longrightarrow> validateQuery q = Inr \<lparr>track_name = trim t, artist_name = trim a, album_name = None\<rparr>)
   \<and> (get_prop q ''track_name'' = JStr t \<and> trim t \<noteq> []
        \<and> get_prop q ''artist_name'' = JStr a \<and> trim a \<noteq> []
        \<and> get_prop q ''album_name'' = JStr b \<and> trim b \<noteq> []
      \<longrightarrow> validateQuery q
            = Inr \<lparr>track_name = trim t, artist_name = trim a, album_name = Some (trim b)\<rparr>)"
proof (intro conjI impI)
  assume "(\<forall>s. get_prop q ''track_name'' = JStr s \<longrightarrow> trim s = [])
      \<or> (\<forall>s. get_prop q ''artist_name'' = JStr s \<longrightarrow> trim s = [])
      \<or> (\<exists>s. get_prop q ''album_name'' = JStr s \<and> s \<noteq> [] \<and> trim s = [])"
  then show "\<exists>msg. validateQuery q = Inl (ValidationError msg)"
    by (auto simp: validateQuery_def blank_or_no_string_def split: jsval.splits)
next
  assume "validateQuery q = Inr r"
  then show "\<exists>t a. get_prop q ''track_name'' = JStr t \<and> get_prop q ''artist_name'' = JStr a
           \<and> track_name r = trim t \<and> artist_name r = trim a"
    by (auto simp: validateQuery_def blank_or_no_string_def trimmed_def
          split: jsval.splits if_splits)
next
  assume "validateQuery q = Inr r"
  then show "album_name r = (case get_prop q ''album_name'' of
                             JStr b \<Rightarrow> if b = [] then None else Some (trim b)
                           | _ \<Rightarrow> None)"
    by (auto simp: validateQuery_def blank_or_no_string_def trimmed_def
          split: jsval.splits if_splits)
next
  assume "get_prop q ''track_name'' = JStr t \<and> trim t \<noteq> []
        \<and> get_prop q ''artist_name'' = JStr a \<and> trim a \<noteq> []
        \<and> (get_prop q ''album_name'' = JUndefined \<or> get_prop q ''album_name'' = JStr [])"
  then show "validateQuery q
      = Inr \<lparr>track_name = trim t, artist_name = trim a, album_name = None\<rparr>"
    using trim_Nil_imp [of t] trim_Nil_imp [of a]
    by (auto simp: validateQuery_def blank_or_no_string_def trimmed_def)
next
  assume "get_prop q ''track_name'' = JStr t \<and> trim t \<noteq> []
        \<and> get_prop q ''artist_name'' = JStr a \<and> trim a \<noteq> []
        \<and> get_prop q ''album_name'' = JStr b \<and> trim b \<noteq> []"
  then show "validateQuery q
      = Inr \<lparr>track_name = trim t, artist_name = trim a, album_name = Some (trim b)\<rparr>"
    using trim_Nil_imp [of t] trim_Nil_imp [of a] trim_Nil_imp [of b]
    by (auto simp: validateQuery_def blank_or_no_string_def trimmed_def)
qed

theorem validateQuery_spec_witness:
  "get_prop query_no_artist ''artist_name'' = JUndefined
   \<and> validateQuery query_no_artist
       = Inl (ValidationError ''track_name and artist_name are required'')
   \<and> (get_prop query_blank_album ''album_name'' = JStr ''  '' \<and> ''  '' \<noteq> [] \<and> trim ''  '' = [])
   \<and> validateQuery query_blank_album
       = Inl (ValidationError ''album_name must be a non-empty string when provided'')
   \<and> (get_prop query_padded ''track_name'' = JStr ''  Test Song  ''
      \<and> trim ''  Test Song  '' \<noteq> []
      \<and> get_prop query_padded ''artist_name'' = JStr ''  Test Artist  ''
      \<and> trim ''  Test Artist  '' \<noteq> []
      \<and> get_prop query_padded ''album_name'' = JUndefined)
   \<and> validateQuery query_padded
       = Inr \<lparr>track_name = ''Test Song'', artist_name = ''Test Artist'', album_name = None\<rparr>
   \<and> (get_prop query_album ''track_name'' = JStr ''Test Song'' \<and> trim ''Test Song'' \<noteq> []
      \<and> get_prop query_album ''artist_name'' = JStr ''Test Artist'' \<and> trim ''Test Artist'' \<noteq> []
      \<and> get_prop query_album ''album_name'' = JStr '' Test Album'' \<and> trim '' Test Album'' \<noteq> [])
   \<and> validateQuery query_album
       = Inr \<lparr>track_name = ''Test Song'', artist_name = ''Test Artist'',
              album_name = Some ''Test Album''\<rparr>"
proof -
  have a0: "get_prop query_no_artist ''artist_name'' = JUndefined"
    by (simp add: get_prop_def query_no_artist_def)
  then have a1: "\<forall>s. get_prop query_no_artist ''artist_name'' = JStr s \<longrightarrow> trim s = []"
    by simp
  have a2: "get_prop query_blank_album ''album_name'' = JStr ''  '' \<and> ''  '' \<noteq> []
      \<and> trim ''  '' = []"
    by (simp add: get_prop_def query_blank_album_def trim_def is_whitespace_def)
  have a3: "get_prop query_padded ''track_name'' = JStr ''  Test Song  ''
      \<and> trim ''  Test Song  '' \<noteq> []
      \<and> get_prop query_padded ''artist_name'' = JStr ''  Test Artist  ''
      \<and> trim ''  Test Artist  '' \<noteq> []
      \<and> get_prop query_padded ''album_name'' = JUndefined"
    by (simp add: get_prop_def query_padded_def trim_def is_whitespace_def)
  have a4: "get_prop query_album ''track_name'' = JStr ''Test Song'' \<and> trim ''Test Song'' \<noteq> []
      \<and> get_prop query_album ''artist_name'' = JStr ''Test Artist'' \<and> trim ''Test Artist'' \<noteq> []
      \<and> get_prop query_album ''album_name'' = JStr '' Test Album'' \<and> trim '' Test Album'' \<noteq> []"
    by (simp add: get_prop_def query_album_def trim_def is_whitespace_def)
  have t: "trim ''  Test Song  '' = ''Test Song''" "trim ''  Test Artist  '' = ''Test Artist''"
    "trim ''Test Song'' = ''Test Song''" "trim ''Test Artist'' = ''Test Artist''"
    "trim '' Test Album'' = ''Test Album''"
    by (simp_all add: trim_def is_whitespace_def)
  from a1 validateQuery_spec [where q = query_no_artist]
  have "\<exists>msg. validateQuery query_no_artist = Inl (ValidationError msg)"
    by blast
  moreover have "\<not> truthy (get_prop query_no_artist ''artist_name'')"
    by (simp add: get_prop_def query_no_artist_def)
  ultimately have c1: "validateQuery query_no_artist
       = Inl (ValidationError ''track_name and artist_name are required'')"
    by (simp add: validateQuery_def)
  from a2 validateQuery_spec [where q = query_blank_album]
  have "\<exists>msg. validateQuery query_blank_album = Inl (ValidationError msg)"
    by blast
  moreover have "validateQuery query_blank_album
      = Inl (ValidationError ''album_name must be a non-empty string when provided'')"
    by code_simp
  ultimately have c2: "validateQuery query_blank_album
      = Inl (ValidationError ''album_name must be a non-empty string when provided'')"
    by blast
  from a3 validateQuery_spec
    [where q = query_padded and t = "''  Test Song  ''" and a = "''  Test Artist  ''"]
  have c3: "validateQuery query_padded
       = Inr \<lparr>track_name = ''Test Song'', artist_name = ''Test Artist'', album_name = None\<rparr>"
    by (simp only: t) blast
  from a4 validateQuery_spec
    [where q = query_album and t = "''Test Song''" and a = "''Test Artist''"
       and b = "'' Test Album''"]
  have c4: "validateQuery query_album
       = Inr \<lparr>track_name = ''Test Song'', artist_name = ''Test Artist'',
              album_name = Some ''Test Album''\<rparr>"
    by (simp only: t) blast
  from a0 a2 a3 a4 c1 c2 c3 c4 show ?thesis by blast
qed

text \<open>
  C3 as stated fails on an album name that is the empty string: it is present and trims to
  empty, and the call returns a query without an album name.
\<close>

theorem validateQuery_empty_album_counterexample:
  "get_prop query_empty_album ''album_name'' = JStr [] \<and> trim [] = []
   \<and> validateQuery query_empty_album
       = Inr \<lparr>track_name = ''a'', artist_name = ''b'', album_name = None\<rparr>"
  by code_simp


section \<open>Properties of the LRC rendering\<close>

lemma digit_char_eval:
  "digit_char 0 = CHR ''0''" "digit_char (Suc 0) = CHR ''1''" "digit_char 1 = CHR ''1''"
  "digit_char 2 = CHR ''2''" "digit_char 3 = CHR ''3''" "digit_char 4 = CHR ''4''"
  "digit_char 5 = CHR ''5''" "digit_char 6 = CHR ''6''" "digit_char 7 = CHR ''7''"
  "digit_char 8 = CHR ''8''" "digit_char 9 = CHR ''9''"
  by code_simp+

lemma length_nat_toString:
  "(n < 10 \<longrightarrow> nat_toString n = [digit_char n]) \<and> (10 \<le> n \<longrightarrow> 2 \<le> length (nat_toString n))"
proof (induction n rule: nat_toString.induct)
  case (1 n)
  show ?case
  proof (cases "n < 10")
    case True
    then show ?thesis by (simp add: nat_toString.simps [of n])
  next
    case False
    then have "1 \<le> n div 10" by simp
    with 1 False have "1 \<le> length (nat_toString (n div 10))"
      by (cases "n div 10 < 10") auto
    with False show ?thesis by (simp add: nat_toString.simps [of n])
  qed
qed

lemma padStart_two_digits:
  assumes "int n \<le> MAX_SAFE_INTEGER"
  shows "padStart (toString (int n)) 2 CHR ''0'' = two_digits_spec n"
proof -
  from assms have t: "toString (int n) = nat_toString n"
    by (simp add: toString_def)
  show ?thesis
  proof (cases "n < 10")
    case True
    then show ?thesis
      using length_nat_toString [of n] by (simp add: t padStart_def two_digits_spec_def)
  next
    case False
    then have "2 \<le> length (nat_toString n)"
      using length_nat_toString [of n] by simp
    with False show ?thesis
      by (simp add: t padStart_def two_digits_spec_def)
  qed
qed

lemma smod_nonneg: "0 \<le> (a::int) \<Longrightarrow> 0 < b \<Longrightarrow> a smod b = a mod b"
  by (cases "a = 0") (simp_all add: signed_modulo_int_def)

lemma lrc_fields:
  "int ms div 60000 = int (ms div 60000)"
  "(int ms smod 60000) div 1000 = int ((ms mod 60000) div 1000)"
  "(int ms smod 1000) div 10 = int ((ms mod 1000) div 10)"
  by (simp_all add: smod_nonneg zdiv_int zmod_int)

lemma lrc_line_synced:
  assumes "int (snd p) \<le> MAX_SAFE_INTEGER"
  shows "lrc_line (synced_line p) = lrc_timestamp_spec (snd p) @ fst p"
proof -
  have le: "snd p div 60000 \<le> snd p" "(snd p mod 60000) div 1000 \<le> snd p"
    "(snd p mod 1000) div 10 \<le> snd p"
    by (simp_all add: div_le_dividend le_trans [OF div_le_dividend mod_less_eq_dividend])
  with assms have
    "int (snd p div 60000) \<le> MAX_SAFE_INTEGER"
    "int ((snd p mod 60000) div 1000) \<le> MAX_SAFE_INTEGER"
    "int ((snd p mod 1000) div 10) \<le> MAX_SAFE_INTEGER"
    by linarith+
  then show ?thesis
    by (simp add: lrc_line_def synced_line_def Let_def lrc_timestamp_spec_def lrc_fields
          padStart_two_digits)
qed

lemma formatLyrics_synced:
  assumes "synced \<noteq> []" and "\<forall>p \<in> set synced. int (snd p) \<le> MAX_SAFE_INTEGER"
  shows "formatLyrics stringify (map synced_line synced) (Some Lrc) md
     = Inr \<lparr>content = join [CHR 0x0A] (map (\<lambda>(txt, ms). lrc_timestamp_spec ms @ txt) synced),
            format = Lrc, metadata = md\<rparr>"
proof -
  from assms(1) obtain p ps where s: "synced = p # ps" by (cases synced) auto
  have "isSyncedLyrics (map synced_line synced)"
    by (simp add: s isSyncedLyrics_def synced_line_def)
  moreover have "map lrc_line (map synced_line synced)
      = map (\<lambda>(txt, ms). lrc_timestamp_spec ms @ txt) synced"
    unfolding map_map
  proof (rule map_cong [OF refl])
    fix p assume "p \<in> set synced"
    with assms(2) have "int (snd p) \<le> MAX_SAFE_INTEGER" by blast
    then show "(lrc_line \<circ> synced_line) p = (case p of (txt, ms) \<Rightarrow> lrc_timestamp_spec ms @ txt)"
      by (simp add: lrc_line_synced case_prod_beta)
  qed
  ultimately show ?thesis
    by (simp only: formatLyrics_def formatToLRC_def option.case LyricsFormat.case not_True_eq_False
          if_False)
qed

text \<open>
  C5 (as amended).  For every non-empty sequence of synced lines whose start times are
  whole numbers of milliseconds from 0 to \<open>Number.MAX_SAFE_INTEGER\<close>, formatting as
  \<open>lrc\<close> renders each line as the timestamp of the specification immediately followed
  by the text, and joins the lines with newlines; the two lines of the example render as
  \<open>[00:00.00]Line 1\<close> and \<open>[00:01.00]Line 2\<close>.
\<close>

theorem formatLyrics_lrc_synced:
  "(synced \<noteq> [] \<and> (\<forall>p \<in> set synced. int (snd p) \<le> MAX_SAFE_INTEGER) \<longrightarrow>
      formatLyrics stringify (map synced_line synced) (Some Lrc) md
        = Inr \<lparr>content = join [CHR 0x0A]
                            (map (\<lambda>(txt, ms). lrc_timestamp_spec ms @ txt) synced),
               format = Lrc, metadata = md\<rparr>)
   \<and> formatLyrics stringify
        [\<lparr>text = ''Line 1'', startTime = Some 0\<rparr>, \<lparr>text = ''Line 2'', startTime = Some 1000\<rparr>]
        (Some Lrc) md
      = Inr \<lparr>content = ''[00:00.00]Line 1'' @ [CHR 0x0A] @ ''[00:01.00]Line 2'',
             format = Lrc, metadata = md\<rparr>"
proof (intro conjI impI)
  assume "synced \<noteq> [] \<and> (\<forall>p \<in> set synced. int (snd p) \<le> MAX_SAFE_INTEGER)"
  then show "formatLyrics stringify (map synced_line synced) (Some Lrc) md
        = Inr \<lparr>content = join [CHR 0x0A]
                            (map (\<lambda>(txt, ms). lrc_timestamp_spec ms @ txt) synced),
               format = Lrc, metadata = md\<rparr>"
    by (simp add: formatLyrics_synced)
next
  have ex: "lrc_timestamp_spec 0 = ''[00:00.00]''" "lrc_timestamp_spec 1000 = ''[00:01.00]''"
    by (simp_all add: lrc_timestamp_spec_def two_digits_spec_def nat_toString.simps
          digit_char_eval)
  have "formatLyrics stringify (map synced_line [(''Line 1'', 0), (''Line 2'', 1000)]) (Some Lrc) md
      = Inr \<lparr>content = join [CHR 0x0A]
                 (map (\<lambda>(txt, ms). lrc_timestamp_spec ms @ txt) [(''Line 1'', 0), (''Line 2'', 1000)]),
             format = Lrc, metadata = md\<rparr>"
    by (rule formatLyrics_synced) (simp_all add: MAX_SAFE_INTEGER_def)
  then show "formatLyrics stringify
        [\<lparr>text = ''Line 1'', startTime = Some 0\<rparr>, \<lparr>text = ''Line 2'', startTime = Some 1000\<rparr>]
        (Some Lrc) md
      = Inr \<lparr>content = ''[00:00.00]Line 1'' @ [CHR 0x0A] @ ''[00:01.00]Line 2'',
             format = Lrc, metadata = md\<rparr>"
    by (simp add: synced_line_def ex)
qed

theorem formatLyrics_lrc_synced_witness:
  "timed_lines \<noteq> []
   \<and> list_all (\<lambda>p. int (snd p) \<le> MAX_SAFE_INTEGER) timed_lines
   \<and> formatLyrics (\<lambda>ls. []) (map synced_line timed_lines) (Some Lrc) None
      = Inr \<lparr>content = ''[00:00.00]Intro'' @ [CHR 0x0A] @ ''[01:23.45]Verse''
                          @ [CHR 0x0A] @ ''[102:03.45]Outro'',
             format = Lrc, metadata = None\<rparr>"
proof -
  have a1: "timed_lines \<noteq> []" by (simp add: timed_lines_def)
  have a2: "list_all (\<lambda>p. int (snd p) \<le> MAX_SAFE_INTEGER) timed_lines"
    by (simp add: timed_lines_def MAX_SAFE_INTEGER_def)
  then have a2': "\<forall>p \<in> set timed_lines. int (snd p) \<le> MAX_SAFE_INTEGER"
    by (simp add: list_all_iff)
  have v: "join [CHR 0x0A] (map (\<lambda>(txt, ms). lrc_timestamp_spec ms @ txt) timed_lines)
      = ''[00:00.00]Intro'' @ [CHR 0x0A] @ ''[01:23.45]Verse'' @ [CHR 0x0A] @ ''[102:03.45]Outro''"
    by (simp add: timed_lines_def lrc_timestamp_spec_def two_digits_spec_def nat_toString.simps
          digit_char_eval)
  from a1 a2' formatLyrics_lrc_synced
    [where synced = timed_lines and stringify = "\<lambda>ls. []" and md = None]
  have c1: "formatLyrics (\<lambda>ls. []) (map synced_line timed_lines) (Some Lrc) None
      = Inr \<lparr>content = join [CHR 0x0A] (map (\<lambda>(txt, ms). lrc_timestamp_spec ms @ txt) timed_lines),
             format = Lrc, metadata = None\<rparr>"
    by blast
  from a1 a2 c1 show ?thesis by (simp only: v) blast
qed

text \<open>
  C5 as stated fails for a negative start time: at \<open>-1\<close> the remainder of the source is
  \<open>-1\<close>, so the seconds and centiseconds fields are both \<open>-1\<close>, where the formula of the
  claim gives 59 and 99.
\<close>

theorem formatLyrics_lrc_negative_counterexample:
  "formatLyrics (\<lambda>ls. []) [\<lparr>text = ''x'', startTime = Some (- 1)\<rparr>] (Some Lrc) None
     = Inr \<lparr>content = ''[-1:-1.-1]x'', format = Lrc, metadata = None\<rparr>
   \<and> ((- 1) mod 60000) div 1000 = (59::int)
   \<and> ((- 1) mod 1000) div 10 = (99::int)"
  by code_simp

section \<open>Properties of \<open>getLyricsById\<close>\<close>

lemma generateKey_by_id:
  "generateKey ''lyrics_by_id'' q
     = ''lyrics_by_id:''
         @ join ''|'' (map (\<lambda>key. key @ '':'' @ String (get_prop q key)) (sort (Object_keys q)))"
  by (simp add: generateKey_def Let_def)

lemma generateKey_other:
  "prefix \<in> set set_prefixes \<Longrightarrow> generateKey prefix q \<noteq> ''lyrics_by_id:'' @ r"
  by (auto simp: set_prefixes_def generateKey_def Let_def)

lemma by_id_free_get: "by_id_free c \<Longrightarrow> by_id_free (snd (get now key c))"
  by (auto simp: by_id_free_def get_def split: option.splits)

lemma by_id_free_set:
  "by_id_free c \<Longrightarrow> prefix \<in> set set_prefixes \<Longrightarrow>
   by_id_free (set_c now (generateKey prefix q) v t c)"
  using generateKey_other [of prefix q]
  by (auto simp: by_id_free_def set_c_def Let_def)

lemma by_id_free_clear: "by_id_free (clear c)"
  by (simp add: by_id_free_def clear_def)

lemma by_id_free_new: "by_id_free (new_Cache d)"
  by (simp add: by_id_free_def new_Cache_def)

lemma by_id_free_clean: "by_id_free c \<Longrightarrow> by_id_free (snd (clean now c))"
  by (simp add: by_id_free_def clean_def)

lemma getLyricsById_cache:
  "client_cache (snd (getLyricsById n1 n2 trackId opts c)) = client_cache c
   \<or> (\<exists>key. client_cache (snd (getLyricsById n1 n2 trackId opts c))
              = snd (get n1 key (client_cache c)))"
  by (auto simp: getLyricsById_def Let_def split: option.splits sum.splits)

lemma reachable_by_id_free: "reachable c \<Longrightarrow> by_id_free (client_cache c)"
proof (induction rule: reachable.induct)
  case (constructed now opts)
  then show ?case by (simp add: new_Client_def by_id_free_new)
next
  case (cache_get c now key)
  then show ?case by (simp add: by_id_free_get)
next
  case (cache_set c prefix now query v)
  then show ?case by (simp add: by_id_free_set)
next
  case (clearCache c)
  then show ?case by (simp add: by_id_free_clear)
next
  case (getCacheStats c now)
  then show ?case by (simp add: by_id_free_clean)
next
  case (check_limit c now)
  then show ?case by simp
next
  case (resetRateLimit c now)
  then show ?case by simp
next
  case (lyrics_by_id c now_get now_check trackId opts)
  then show ?case
    using getLyricsById_cache [of now_get now_check trackId opts c]
    by (auto simp: by_id_free_get)
qed

lemma get_by_id_free:
  "by_id_free c \<Longrightarrow> get now (generateKey ''lyrics_by_id'' q) c = (None, c)"
  by (simp add: generateKey_by_id by_id_free_def get_def)

text \<open>
  C8.  On every client state that the class can reach, for every track id, every options
  object and every time, \<open>getLyricsById\<close> rejects: it never resolves with a value.
\<close>

theorem getLyricsById_always_fails:
  "reachable c \<Longrightarrow> \<exists>e. fst (getLyricsById now_get now_check trackId opts c) = Inl e"
proof -
  assume "reachable c"
  then have "by_id_free (client_cache c)" by (rule reachable_by_id_free)
  then show ?thesis
    by (simp add: getLyricsById_def Let_def get_by_id_free split: sum.splits)
qed

theorem getLyricsById_always_fails_witness:
  "reachable used_client
   \<and> fst (getLyricsById 10 20 42 [(''format'', JStr ''lrc'')] used_client)
       = Inl (NotFoundError
           ''getLyricsById is not yet implemented - use searchSong and getLyricsByMetadata instead'')"
proof -
  have "''lyrics_by_metadata'' \<in> set set_prefixes"
    by (simp add: set_prefixes_def)
  from reachable.cache_set [OF reachable.constructed this]
  have r: "reachable used_client"
    unfolding used_client_def .
  from getLyricsById_always_fails [OF r, of 10 20 42 "[(''format'', JStr ''lrc'')]"]
  obtain e where e: "fst (getLyricsById 10 20 42 [(''format'', JStr ''lrc'')] used_client) = Inl e"
    by blast
  have "fst (getLyricsById 10 20 42 [(''format'', JStr ''lrc'')] used_client)
       = Inl (NotFoundError
           ''getLyricsById is not yet implemented - use searchSong and getLyricsByMetadata instead'')"
    by code_simp
  with r e show ?thesis by simp
qed

section \<open>Properties of the similarity score\<close>

lemma lev_zero_right [simp]: "lev s1 s2 i 0 = i"
  by (cases i) simp_all

lemma lev_sym: "lev s1 s2 i j = lev s2 s1 j i"
proof (induction s1 s2 i j rule: lev.induct)
  case (3 s1 s2 i j)
  have "(s1 ! i = s2 ! j) = (s2 ! j = s1 ! i)" by auto
  with 3 show ?case by (simp add: min.commute min.left_commute)
qed simp_all

lemma lev_le_max: "lev s1 s2 i j \<le> max i j"
proof (induction s1 s2 i j rule: lev.induct)
  case (3 s1 s2 i j)
  have "lev s1 s2 (Suc i) (Suc j) \<le> lev s1 s2 i j + (if s1 ! i = s2 ! j then 0 else 1)"
    by simp
  also have "\<dots> \<le> max i j + 1" using 3 by simp
  finally show ?case by simp
qed simp_all

lemma shaped_update:
  "shaped m rows cols \<Longrightarrow> shaped (m[j := (m ! j)[i := v]]) rows cols"
  by (cases "j < length m") (auto simp: shaped_def nth_list_update)

lemma cell_update:
  "shaped m rows cols \<Longrightarrow> j < rows \<Longrightarrow> i < cols \<Longrightarrow> j' < rows \<Longrightarrow> i' < cols \<Longrightarrow>
   cell (m[j := (m ! j)[i := Some v]]) j' i' = (if j' = j \<and> i' = i then v else cell m j' i')"
  by (auto simp: shaped_def cell_def num_def nth_list_update)

lemma shaped_new: "shaped (new_matrix rows cols) rows cols"
  by (simp add: shaped_def new_matrix_def)


text \<open>The first loop writes the first row, the second loop the first column.\<close>

lemma first_row_loop:
  assumes "shaped m rows cols" and "0 < rows" and "k \<le> cols"
  shows "shaped (fold (\<lambda>i m. m[0 := (m ! 0)[i := Some i]]) [0..<k] m) rows cols
    \<and> (\<forall>i<k. cell (fold (\<lambda>i m. m[0 := (m ! 0)[i := Some i]]) [0..<k] m) 0 i = i)"
  using assms(3)
proof (induction k)
  case 0
  then show ?case using assms by simp
next
  case (Suc k)
  let ?m = "fold (\<lambda>i m. m[0 := (m ! 0)[i := Some i]]) [0..<k] m"
  from Suc have sh: "shaped ?m rows cols" and row: "\<forall>i<k. cell ?m 0 i = i" and k: "k < cols"
    by simp_all
  have "cell (?m[0 := (?m ! 0)[k := Some k]]) 0 i = i" if "i < Suc k" for i
    using that cell_update [OF sh assms(2) k assms(2), of i k] row k by auto
  then show ?case using sh by (simp add: shaped_update)
qed

lemma first_col_loop:
  assumes "shaped m rows cols" and "0 < cols" and "k \<le> rows"
  shows "shaped (fold (\<lambda>j m. m[j := (m ! j)[0 := Some j]]) [0..<k] m) rows cols
    \<and> (\<forall>j<k. cell (fold (\<lambda>j m. m[j := (m ! j)[0 := Some j]]) [0..<k] m) j 0 = j)
    \<and> (\<forall>j<rows. \<forall>i<cols. 0 < i \<longrightarrow>
          cell (fold (\<lambda>j m. m[j := (m ! j)[0 := Some j]]) [0..<k] m) j i = cell m j i)"
  using assms(3)
proof (induction k)
  case 0
  then show ?case using assms by simp
next
  case (Suc k)
  let ?m = "fold (\<lambda>j m. m[j := (m ! j)[0 := Some j]]) [0..<k] m"
  from Suc have sh: "shaped ?m rows cols" and col: "\<forall>j<k. cell ?m j 0 = j"
    and rest: "\<forall>j<rows. \<forall>i<cols. 0 < i \<longrightarrow> cell ?m j i = cell m j i" and k: "k < rows"
    by simp_all
  have upd: "cell (?m[k := (?m ! k)[0 := Some k]]) j i
      = (if j = k \<and> i = 0 then k else cell ?m j i)"
    if "j < rows" "i < cols" for j i
    using cell_update [OF sh k assms(2) that] .
  have "cell (?m[k := (?m ! k)[0 := Some k]]) j 0 = j" if "j < Suc k" for j
    using upd [of j 0] that k col assms(2) by auto
  moreover have "cell (?m[k := (?m ! k)[0 := Some k]]) j i = cell m j i"
    if "j < rows" "i < cols" "0 < i" for j i
    using upd [of j i] that rest by auto
  ultimately show ?case using sh by (simp add: shaped_update)
qed

text \<open>One assignment of the inner loop extends the filled part by its cell.\<close>

lemma fill_cell_step:
  assumes sh: "shaped m (Suc (length s2)) (Suc (length s1))"
    and fl: "filled s1 s2 m j i"
    and j: "1 \<le> j" "j \<le> length s2" and i: "1 \<le> i" "i \<le> length s1"
  shows "shaped (fill_cell s1 s2 j i m) (Suc (length s2)) (Suc (length s1))
    \<and> filled s1 s2 (fill_cell s1 s2 j i m) j (Suc i)"
proof -
  from j i obtain j' i' where ji: "j = Suc j'" "i = Suc i'"
    by (cases j; cases i) auto
  let ?v = "min (num (m ! j ! (i - 1)) + 1)
              (min (num (m ! (j - 1) ! i) + 1)
                   (num (m ! (j - 1) ! (i - 1)) + (if s1 ! (i - 1) = s2 ! (j - 1) then 0 else 1)))"
  have m': "fill_cell s1 s2 j i m = m[j := (m ! j)[i := Some ?v]]"
    by (simp add: fill_cell_def Let_def)
  have a: "cell m j i' = lev s1 s2 i' j"
    using fl j i ji unfolding filled_def by auto
  have b: "cell m j' i = lev s1 s2 i j'"
    using fl j i ji unfolding filled_def by auto
  have c: "cell m j' i' = lev s1 s2 i' j'"
    using fl j i ji unfolding filled_def by auto
  have v: "?v = lev s1 s2 i j"
    using a b c by (simp add: ji cell_def)
  have jr: "j < Suc (length s2)" and ic: "i < Suc (length s1)"
    using j i by simp_all
  have upd: "cell (fill_cell s1 s2 j i m) jj ii
      = (if jj = j \<and> ii = i then lev s1 s2 i j else cell m jj ii)"
    if "jj \<le> length s2" "ii \<le> length s1" for jj ii
  proof -
    from that have "jj < Suc (length s2)" "ii < Suc (length s1)" by simp_all
    from cell_update [OF sh jr ic this, of ?v] show ?thesis
      by (simp only: m' v)
  qed
  have "filled s1 s2 (fill_cell s1 s2 j i m) j (Suc i)"
    unfolding filled_def
  proof (intro allI impI)
    fix jj ii
    assume h: "jj \<le> length s2 \<and> ii \<le> length s1
      \<and> (jj = 0 \<or> ii = 0 \<or> jj < j \<or> (jj = j \<and> ii < Suc i))"
    show "cell (fill_cell s1 s2 j i m) jj ii = lev s1 s2 ii jj"
    proof (cases "jj = j \<and> ii = i")
      case True
      with h upd [of jj ii] show ?thesis by simp
    next
      case False
      with h have "jj = 0 \<or> ii = 0 \<or> jj < j \<or> (jj = j \<and> ii < i)" by auto
      with h fl have "cell m jj ii = lev s1 s2 ii jj"
        unfolding filled_def by blast
      with False h upd [of jj ii] show ?thesis by simp
    qed
  qed
  then show ?thesis by (simp add: m' shaped_update [OF sh])
qed

lemma fill_row_loop:
  assumes sh: "shaped m (Suc (length s2)) (Suc (length s1))"
    and fl: "filled s1 s2 m j 1"
    and j: "1 \<le> j" "j \<le> length s2" and k: "k \<le> length s1"
  shows "shaped (fold (fill_cell s1 s2 j) [1..<Suc k] m) (Suc (length s2)) (Suc (length s1))
    \<and> filled s1 s2 (fold (fill_cell s1 s2 j) [1..<Suc k] m) j (Suc k)"
  using k
proof (induction k)
  case 0
  then show ?case using sh fl by simp
next
  case (Suc k)
  let ?m = "fold (fill_cell s1 s2 j) [1..<Suc k] m"
  from Suc have sh': "shaped ?m (Suc (length s2)) (Suc (length s1))"
    and fl': "filled s1 s2 ?m j (Suc k)" and k: "Suc k \<le> length s1"
    by (simp_all del: upt_Suc)
  have step: "fold (fill_cell s1 s2 j) [1..<Suc (Suc k)] m = fill_cell s1 s2 j (Suc k) ?m"
    by (simp del: upt_Suc add: upt_Suc_append)
  have "1 \<le> Suc k" by simp
  from fill_cell_step [OF sh' fl' j this k] show ?case
    unfolding step .
qed

lemma filled_next_row:
  "filled s1 s2 m j (Suc (length s1)) \<Longrightarrow> filled s1 s2 m (Suc j) 1"
  unfolding filled_def by (metis less_Suc_eq less_Suc_eq_le less_one)

lemma fill_matrix_loop:
  assumes sh: "shaped m (Suc (length s2)) (Suc (length s1))"
    and fl: "filled s1 s2 m 1 1" and k: "k \<le> length s2"
  shows "shaped (fold (\<lambda>j m. fold (fill_cell s1 s2 j) [1..<Suc (length s1)] m) [1..<Suc k] m)
           (Suc (length s2)) (Suc (length s1))
    \<and> filled s1 s2 (fold (\<lambda>j m. fold (fill_cell s1 s2 j) [1..<Suc (length s1)] m) [1..<Suc k] m)
        (Suc k) 1"
  using k
proof (induction k)
  case 0
  then show ?case using sh fl by simp
next
  case (Suc k)
  let ?m = "fold (\<lambda>j m. fold (fill_cell s1 s2 j) [1..<Suc (length s1)] m) [1..<Suc k] m"
  from Suc have sh': "shaped ?m (Suc (length s2)) (Suc (length s1))"
    and fl': "filled s1 s2 ?m (Suc k) 1" and k: "Suc k \<le> length s2"
    by (simp_all del: upt_Suc)
  have step: "fold (\<lambda>j m. fold (fill_cell s1 s2 j) [1..<Suc (length s1)] m) [1..<Suc (Suc k)] m
      = fold (fill_cell s1 s2 (Suc k)) [1..<Suc (length s1)] ?m"
    by (simp del: upt_Suc add: upt_Suc_append)
  have "1 \<le> Suc k" by simp
  from fill_row_loop [OF sh' fl' this k order_refl]
  have "shaped (fold (fill_cell s1 s2 (Suc k)) [1..<Suc (length s1)] ?m)
          (Suc (length s2)) (Suc (length s1))
    \<and> filled s1 s2 (fold (fill_cell s1 s2 (Suc k)) [1..<Suc (length s1)] ?m)
        (Suc k) (Suc (length s1))" .
  then show ?case
    unfolding step using filled_next_row by blast
qed

text \<open>The cell that \<open>calculateSimilarity\<close> reads at the end holds the value of the recurrence.\<close>

lemma levenshtein_lev: "levenshtein s1 s2 = lev s1 s2 (length s1) (length s2)"
proof -
  let ?R = "Suc (length s2)" and ?C = "Suc (length s1)"
  let ?m0 = "new_matrix (length s2 + 1) (length s1 + 1)"
  let ?m1 = "fill_first_row (length s1) ?m0"
  let ?m2 = "fill_first_col (length s2) ?m1"
  have sh0: "shaped ?m0 ?R ?C" using shaped_new [of ?R ?C] by simp
  from first_row_loop [OF sh0, of ?C]
  have sh1: "shaped ?m1 ?R ?C" and row: "\<forall>i<?C. cell ?m1 0 i = i"
    by (simp_all add: fill_first_row_def)
  from first_col_loop [OF sh1, of ?R]
  have sh2: "shaped ?m2 ?R ?C" and col: "\<forall>j<?R. cell ?m2 j 0 = j"
    and rest: "\<forall>j<?R. \<forall>i<?C. 0 < i \<longrightarrow> cell ?m2 j i = cell ?m1 j i"
    by (simp_all add: fill_first_col_def)
  have fl: "filled s1 s2 ?m2 1 1"
    unfolding filled_def
  proof (intro allI impI)
    fix j i
    assume h: "j \<le> length s2 \<and> i \<le> length s1 \<and> (j = 0 \<or> i = 0 \<or> j < 1 \<or> (j = 1 \<and> i < 1))"
    show "cell ?m2 j i = lev s1 s2 i j"
    proof (cases "i = 0")
      case True
      with h col show ?thesis by simp
    next
      case False
      with h have j0: "j = 0" by auto
      with h False rest row show ?thesis by simp
    qed
  qed
  from fill_matrix_loop [OF sh2 fl order_refl]
  have "filled s1 s2 (fill_matrix s1 s2 ?m2) ?R 1"
    by (simp add: fill_matrix_def)
  then have "cell (fill_matrix s1 s2 ?m2) (length s2) (length s1)
      = lev s1 s2 (length s1) (length s2)"
    unfolding filled_def by simp
  then show ?thesis by (simp add: levenshtein_def cell_def)
qed

lemma levenshtein_sym: "levenshtein s1 s2 = levenshtein s2 s1"
  by (simp add: levenshtein_lev lev_sym [of s1 s2])

lemma levenshtein_le: "levenshtein s1 s2 \<le> max (length s1) (length s2)"
  by (simp add: levenshtein_lev lev_le_max)

text \<open>
  C7.  For all strings \<open>a\<close> and \<open>b\<close>, \<open>calculateSimilarity a b\<close> equals
  \<open>calculateSimilarity b a\<close> and lies between 0 and 1; strings that are equal after
  lowercasing and trimming score exactly 1, and so do two empty strings.  The quotient is
  taken in the rationals.
\<close>

theorem calculateSimilarity_sym_bounded:
  "calculateSimilarity a b = calculateSimilarity b a
   \<and> 0 \<le> calculateSimilarity a b \<and> calculateSimilarity a b \<le> 1
   \<and> (trim (toLowerCase a) = trim (toLowerCase b) \<longrightarrow> calculateSimilarity a b = 1)
   \<and> calculateSimilarity [] [] = 1"
proof (intro conjI impI)
  show "calculateSimilarity a b = calculateSimilarity b a"
    by (auto simp: calculateSimilarity_def Let_def max.commute
          levenshtein_sym [of "trim (toLowerCase a)" "trim (toLowerCase b)"])
next
  let ?s1 = "trim (toLowerCase a)" and ?s2 = "trim (toLowerCase b)"
  have le: "(of_nat (levenshtein ?s1 ?s2) :: rat) \<le> of_nat (max (length ?s1) (length ?s2))"
    using levenshtein_le [of ?s1 ?s2] by (simp only: of_nat_le_iff)
  show "0 \<le> calculateSimilarity a b"
    using le by (auto simp: calculateSimilarity_def Let_def)
  show "calculateSimilarity a b \<le> 1"
    using le by (auto simp: calculateSimilarity_def Let_def divide_le_eq_1)
next
  assume "trim (toLowerCase a) = trim (toLowerCase b)"
  then show "calculateSimilarity a b = 1"
    by (simp add: calculateSimilarity_def)
next
  show "calculateSimilarity [] [] = 1"
    by (simp add: calculateSimilarity_def)
qed

theorem calculateSimilarity_sym_bounded_witness:
  "trim (toLowerCase ''  Hello '') = trim (toLowerCase ''hELLO'')
   \<and> calculateSimilarity ''  Hello '' ''hELLO'' = 1
   \<and> calculateSimilarity ''Hello'' ''Hallo'' = 4 / 5
   \<and> calculateSimilarity ''Hello'' ''Hallo'' = calculateSimilarity ''Hallo'' ''Hello''
   \<and> 0 \<le> calculateSimilarity ''Hello'' ''Hallo'' \<and> calculateSimilarity ''Hello'' ''Hallo'' \<le> 1"
proof -
  have a1: "trim (toLowerCase ''  Hello '') = trim (toLowerCase ''hELLO'')"
    by code_simp
  have v: "calculateSimilarity ''Hello'' ''Hallo'' = 4 / 5"
    by code_simp
  from a1 calculateSimilarity_sym_bounded [of "''  Hello ''" "''hELLO''"]
  have c1: "calculateSimilarity ''  Hello '' ''hELLO'' = 1"
    by blast
  from calculateSimilarity_sym_bounded [of "''Hello''" "''Hallo''"]
  have c2: "calculateSimilarity ''Hello'' ''Hallo'' = calculateSimilarity ''Hallo'' ''Hello''
      \<and> 0 \<le> calculateSimilarity ''Hello'' ''Hallo'' \<and> calculateSimilarity ''Hello'' ''Hallo'' \<le> 1"
    by blast
  from a1 v c1 c2 show ?thesis by blast
qed

end
